theory Spec2Isabelle
  imports Complex_Main "HOL-Library.AList"
begin

section \<open>Python values and exceptions\<close>

text \<open>
  The payloads handled by \<^verbatim>\<open>webchatter.py\<close> are what \<^verbatim>\<open>json.loads\<close> produces:
  \<^verbatim>\<open>None\<close>, booleans, integers, floats, strings, lists and dictionaries with string
  keys. A float is its real value or one of the three special values that
  \<^verbatim>\<open>json.loads\<close> accepts. A dictionary is an association list in insertion order; the
  first binding of a key is the one that counts.
\<close>

datatype pyfloat = Finite real | PosInf | NegInf | NaN

datatype json =
    JNull
  | JBool bool
  | JInt int
  | JFloat pyfloat
  | JStr string
  | JArr "json list"
  | JObj "(string \<times> json) list"

text \<open>An exception is identified by the name of its class.\<close>

datatype error = Error string

abbreviation KeyError :: error where "KeyError \<equiv> Error ''KeyError''"
abbreviation TypeError :: error where "TypeError \<equiv> Error ''TypeError''"
abbreviation IndexError :: error where "IndexError \<equiv> Error ''IndexError''"
abbreviation AttributeError :: error where "AttributeError \<equiv> Error ''AttributeError''"
abbreviation ValueError :: error where "ValueError \<equiv> Error ''ValueError''"
abbreviation JSONDecodeError :: error where "JSONDecodeError \<equiv> Error ''JSONDecodeError''"
abbreviation AssertionError :: error where "AssertionError \<equiv> Error ''AssertionError''"

text \<open>Sequencing of two steps of which the first may raise.\<close>

definition andthen :: "error + 'a \<Rightarrow> ('a \<Rightarrow> error + 'b) \<Rightarrow> error + 'b" where
  "andthen m f = (case m of Inl e \<Rightarrow> Inl e | Inr x \<Rightarrow> f x)"

text \<open>Truth value of an object, as \<^verbatim>\<open>not x\<close> and \<^verbatim>\<open>x or y\<close> test it.\<close>

fun truthy :: "json \<Rightarrow> bool" where
  "truthy JNull = False"
| "truthy (JBool b) = b"
| "truthy (JInt i) = (i \<noteq> 0)"
| "truthy (JFloat f) = (f \<noteq> Finite 0)"
| "truthy (JStr s) = (s \<noteq> [])"
| "truthy (JArr xs) = (xs \<noteq> [])"
| "truthy (JObj d) = (d \<noteq> [])"

text \<open>\<^verbatim>\<open>x.get(k)\<close>: only a dictionary has the method; a missing key gives \<^verbatim>\<open>None\<close>.\<close>

fun dict_get :: "json \<Rightarrow> string \<Rightarrow> error + json" where
  "dict_get (JObj d) k = Inr (case map_of d k of None \<Rightarrow> JNull | Some v \<Rightarrow> v)"
| "dict_get _ k = Inl AttributeError"

text \<open>\<^verbatim>\<open>x[k]\<close> for a string \<^verbatim>\<open>k\<close>.\<close>

fun getitem :: "json \<Rightarrow> string \<Rightarrow> error + json" where
  "getitem (JObj d) k = (case map_of d k of None \<Rightarrow> Inl KeyError | Some v \<Rightarrow> Inr v)"
| "getitem _ k = Inl TypeError"

text \<open>
  \<^verbatim>\<open>x[0]\<close>: the first element of a list, the first character of a string, a key error
  on a dictionary (whose keys are strings), a type error elsewhere.
\<close>

fun getitem0 :: "json \<Rightarrow> error + json" where
  "getitem0 (JArr []) = Inl IndexError"
| "getitem0 (JArr (x # xs)) = Inr x"
| "getitem0 (JStr []) = Inl IndexError"
| "getitem0 (JStr (c # cs)) = Inr (JStr [c])"
| "getitem0 (JObj d) = Inl KeyError"
| "getitem0 _ = Inl TypeError"

text \<open>\<^verbatim>\<open>x[k] = v\<close> for a string \<^verbatim>\<open>k\<close>: only a dictionary accepts it.\<close>

fun setitem :: "json \<Rightarrow> string \<Rightarrow> json \<Rightarrow> error + json" where
  "setitem (JObj d) k v = Inr (JObj (AList.update k v d))"
| "setitem _ k v = Inl TypeError"

section \<open>Node\<close>

text \<open>
  \<^verbatim>\<open>Node.simplify\<close> returns a dictionary with the four keys \<^verbatim>\<open>id\<close>, \<^verbatim>\<open>message\<close>,
  \<^verbatim>\<open>parent\<close>, \<^verbatim>\<open>children\<close>; a \<^verbatim>\<open>Node\<close> object keeps it together with \<^verbatim>\<open>name\<close>
  and \<^verbatim>\<open>depth\<close>. The attributes \<^verbatim>\<open>_message\<close>, \<^verbatim>\<open>_parent\<close>, \<^verbatim>\<open>_children\<close>,
  \<^verbatim>\<open>_node_id\<close> of the object are the same objects as the dictionary's values, so one
  record holds both.
\<close>

record simplified =
  id' :: json
  message :: json
  parent :: json
  children :: json

record Node = simplified +
  name :: string
  depth :: int

text \<open>Line 54: \<^verbatim>\<open>msg['content']['parts'][0]\<close>.\<close>

definition first_part :: "json \<Rightarrow> error + json" where
  "first_part msg = andthen (getitem msg ''content'') (\<lambda>c. andthen (getitem c ''parts'') getitem0)"

text \<open>Line 61: \<^verbatim>\<open>node.get("id") or node['message']['id']\<close>.\<close>

definition resolve_id :: "json \<Rightarrow> error + json" where
  "resolve_id node =
     andthen (dict_get node ''id'') (\<lambda>i.
       if truthy i then Inr i
       else andthen (getitem node ''message'') (\<lambda>m. getitem m ''id''))"

definition simplify :: "json \<Rightarrow> error + simplified" where
  "simplify node =
     andthen (dict_get node ''message'') (\<lambda>msg0.
     andthen (case msg0 of JObj _ \<Rightarrow> first_part msg0 | _ \<Rightarrow> Inr msg0) (\<lambda>msg.
     andthen (dict_get node ''parent'') (\<lambda>parent0.
     andthen (dict_get node ''children'') (\<lambda>children0.
     andthen (resolve_id node) (\<lambda>node_id0.
       Inr \<lparr>id' = node_id0, message = msg, parent = parent0,
            children = (if \<not> truthy children0 then JArr [] else children0)\<rparr>)))))"

text \<open>\<^verbatim>\<open>Node(node, name, depth)\<close>.\<close>

definition Node_init :: "json \<Rightarrow> string \<Rightarrow> int \<Rightarrow> error + Node" where
  "Node_init node name0 depth0 =
     andthen (simplify node) (\<lambda>f.
       Inr \<lparr>id' = id' f, message = message f, parent = parent f, children = children f,
            name = name0, depth = depth0\<rparr>)"

section \<open>The session\<close>

text \<open>
  The keys of the session's \<^verbatim>\<open>_mapping\<close> dictionary are node ids, which come from
  the server's payloads. A list or a dictionary cannot be a key (\<^verbatim>\<open>TypeError\<close>:
  unhashable); \<^verbatim>\<open>True\<close>, \<^verbatim>\<open>1\<close> and \<^verbatim>\<open>1.0\<close> are one and the same key.
\<close>

datatype key = KNone | KNum pyfloat | KStr string

fun dict_key :: "json \<Rightarrow> key option" where
  "dict_key JNull = Some KNone"
| "dict_key (JBool b) = Some (KNum (Finite (if b then 1 else 0)))"
| "dict_key (JInt i) = Some (KNum (Finite (of_int i)))"
| "dict_key (JFloat f) = Some (KNum f)"
| "dict_key (JStr s) = Some (KStr s)"
| "dict_key (JArr xs) = None"
| "dict_key (JObj d) = None"

text \<open>\<^verbatim>\<open>m[k]\<close> and \<^verbatim>\<open>m[k] = v\<close> on the mapping; a new key goes to the end.\<close>

definition mapping_getitem :: "(key \<times> Node) list \<Rightarrow> json \<Rightarrow> error + Node" where
  "mapping_getitem m k =
     (case dict_key k of
        None \<Rightarrow> Inl TypeError
      | Some h \<Rightarrow> (case map_of m h of None \<Rightarrow> Inl KeyError | Some n \<Rightarrow> Inr n))"

definition mapping_setitem :: "(key \<times> Node) list \<Rightarrow> json \<Rightarrow> Node \<Rightarrow> error + (key \<times> Node) list" where
  "mapping_setitem m k n =
     (case dict_key k of None \<Rightarrow> Inl TypeError | Some h \<Rightarrow> Inr (AList.update h n m))"

text \<open>A dictionary display \<^verbatim>\<open>{k1: v1, k2: v2, ...}\<close> inserts its items from left to right.\<close>

fun dict_display :: "(key \<times> Node) list \<Rightarrow> (json \<times> Node) list \<Rightarrow> error + (key \<times> Node) list" where
  "dict_display m [] = Inr m"
| "dict_display m ((k, n) # kns) = andthen (mapping_setitem m k n) (\<lambda>m'. dict_display m' kns)"

text \<open>\<^verbatim>\<open>xs.append(x)\<close>: only a list has the method.\<close>

fun list_append :: "json \<Rightarrow> json \<Rightarrow> error + json" where
  "list_append (JArr xs) x = Inr (JArr (xs @ [x]))"
| "list_append _ x = Inl AttributeError"

text \<open>
  \<^verbatim>\<open>os.path.join(a, b)\<close> (posixpath) for two strings. With a \<^verbatim>\<open>None\<close> first argument
  it raises \<^verbatim>\<open>TypeError\<close>.
\<close>

definition path_join :: "string \<Rightarrow> string \<Rightarrow> string" where
  "path_join a b =
     (if take 1 b = ''/'' then b
      else if a = [] \<or> drop (length a - 1) a = ''/'' then a @ b
      else a @ ''/'' @ b)"

record WebChat =
  base_url :: "string option"
  access_token :: "string option"
  backend_url :: "string option"
  chat_id :: json
  node_id :: json
  root_id :: json
  tree_id :: json
  que_id :: json
  mapping :: "(key \<times> Node) list"

text \<open>
  The constructor reads three globals of the package, \<^verbatim>\<open>webchatter.base_url\<close>,
  \<^verbatim>\<open>webchatter.backend_url\<close> and \<^verbatim>\<open>webchatter.access_token\<close>, set in the package's
  \<^verbatim>\<open>__init__.py\<close>; they are a parameter here. Each is a string or \<^verbatim>\<open>None\<close>, as
  are the constructor's arguments.
\<close>

record webchatter_globals =
  global_base_url :: "string option"
  global_backend_url :: "string option"
  global_access_token :: "string option"

text \<open>\<^verbatim>\<open>a or b\<close> on strings and \<^verbatim>\<open>None\<close>: the empty string and \<^verbatim>\<open>None\<close> are false.\<close>

definition por :: "string option \<Rightarrow> string option \<Rightarrow> string option" where
  "por a b = (if a = None \<or> a = Some [] then b else a)"

definition opt_json :: "string option \<Rightarrow> json" where
  "opt_json a = (case a of None \<Rightarrow> JNull | Some s \<Rightarrow> JStr s)"

definition WebChat_init ::
  "webchatter_globals \<Rightarrow> string option \<Rightarrow> string option \<Rightarrow> string option \<Rightarrow>
   string option \<Rightarrow> string option \<Rightarrow> error + WebChat" where
  "WebChat_init g base_url0 backend_url0 access_token0 chat_id0 node_id0 =
     (let b = por base_url0 (global_base_url g);
          t = por access_token0 (global_access_token g);
          u = por backend_url0 (global_backend_url g)
      in andthen
           (if u = None \<or> u = Some [] then
              (case b of None \<Rightarrow> Inl TypeError | Some s \<Rightarrow> Inr (Some (path_join s ''backend-api'')))
            else Inr u)
           (\<lambda>be.
              if be = None then Inl AssertionError
              else if t = None then Inl AssertionError
              else Inr \<lparr>base_url = b, access_token = t, backend_url = be,
                        chat_id = opt_json chat_id0, node_id = opt_json node_id0,
                        root_id = JNull, tree_id = JNull, que_id = JNull, mapping = []\<rparr>))"

subsection \<open>Properties and their setters\<close>

text \<open>
  An assignment to a property runs its setter. The setter of \<^verbatim>\<open>base_url\<close> writes
  \<^verbatim>\<open>backend_url\<close> only; the setters of \<^verbatim>\<open>access_token\<close>, \<^verbatim>\<open>chat_id\<close> and
  \<^verbatim>\<open>node_id\<close> raise. Each returns the session after the assignment and what was raised.
\<close>

definition set_base_url :: "WebChat \<Rightarrow> string \<Rightarrow> WebChat \<times> (error + unit)" where
  "set_base_url self new_url =
     (self\<lparr>backend_url := Some (path_join new_url ''backend-api'')\<rparr>, Inr ())"

definition set_access_token :: "WebChat \<Rightarrow> json \<Rightarrow> WebChat \<times> (error + unit)" where
  "set_access_token self v = (self, Inl AttributeError)"

definition set_chat_id :: "WebChat \<Rightarrow> json \<Rightarrow> WebChat \<times> (error + unit)" where
  "set_chat_id self v = (self, Inl AttributeError)"

definition set_node_id :: "WebChat \<Rightarrow> json \<Rightarrow> WebChat \<times> (error + unit)" where
  "set_node_id self v = (self, Inl AttributeError)"

subsection \<open>goto\<close>

text \<open>The body of \<^verbatim>\<open>goto\<close> is its docstring and a TODO comment: it returns \<^verbatim>\<open>None\<close>.\<close>

definition goto :: "WebChat \<Rightarrow> json \<Rightarrow> WebChat \<times> (error + json)" where
  "goto self node_id0 = (self, Inr JNull)"

subsection \<open>ask\<close>

text \<open>
  What \<^verbatim>\<open>ask\<close> takes from outside: the strings returned by the calls of
  \<^verbatim>\<open>str(uuid.uuid4())\<close> (two on the first turn, of which \<^verbatim>\<open>uuid1\<close> is the tree id and
  \<^verbatim>\<open>uuid2\<close> the question id; one, \<^verbatim>\<open>uuid1\<close>, on a later turn) and the outcome of the
  call of \<^verbatim>\<open>chat_completion\<close>: an exception, or the two payloads it returns. The two
  payloads are separate objects.
\<close>

record env =
  uuid1 :: string
  uuid2 :: string
  chat_completion :: "error + json \<times> json"

text \<open>Lines 154 to 169: everything the first turn computes before it writes to the session.\<close>

definition first_turn ::
  "string \<Rightarrow> string \<Rightarrow> string \<Rightarrow> json \<Rightarrow> json \<Rightarrow> error + Node \<times> Node \<times> Node \<times> Node \<times> json" where
  "first_turn message0 tree_id0 que_id0 root_resp ans_resp =
     andthen (setitem root_resp ''children'' (JArr [JStr que_id0])) (\<lambda>root1.
     andthen (setitem root1 ''parent'' (JStr tree_id0)) (\<lambda>root2.
     andthen (setitem ans_resp ''children'' (JArr [])) (\<lambda>ans1.
     andthen (setitem ans1 ''parent'' (JStr que_id0)) (\<lambda>ans2.
     andthen (Node_init root2 ''root'' 0) (\<lambda>root_node.
     andthen (Node_init (JObj [(''id'', JStr tree_id0), (''message'', JNull),
                               (''children'', JArr [id' root_node]), (''parent'', JNull)]) [] 0)
       (\<lambda>tree_node.
     andthen (Node_init ans2 ''A1'' 0) (\<lambda>ans_node.
     andthen (Node_init (JObj [(''id'', JStr que_id0), (''message'', JStr message0),
                               (''children'', JArr [id' ans_node]), (''parent'', id' root_node)])
                ''Q1'' 0)
       (\<lambda>que_node.
     andthen (getitem ans2 ''conversation_id'') (\<lambda>cid.
       Inr (tree_node, root_node, ans_node, que_node, cid))))))))))"

text \<open>
  Line 186, \<^verbatim>\<open>self._mapping[self.node_id].children.append(que_id)\<close>: the node object
  stored under the key is changed in place, so the mapping keeps its order.
\<close>

definition append_child :: "(key \<times> Node) list \<Rightarrow> json \<Rightarrow> json \<Rightarrow> error + (key \<times> Node) list" where
  "append_child m k x =
     (case dict_key k of
        None \<Rightarrow> Inl TypeError
      | Some h \<Rightarrow>
          (case map_of m h of
             None \<Rightarrow> Inl KeyError
           | Some n \<Rightarrow>
               andthen (list_append (children n) x) (\<lambda>c.
                 Inr (AList.update h (n\<lparr>children := c\<rparr>) m))))"

text \<open>
  Lines 178 to 186 of a later turn: the two new nodes, and the mapping once the question
  id is appended to the children of the current answer node.
\<close>

definition next_turn ::
  "WebChat \<Rightarrow> string \<Rightarrow> string \<Rightarrow> json \<Rightarrow> error + Node \<times> Node \<times> (key \<times> Node) list" where
  "next_turn self message0 que_id0 ans_resp =
     andthen (setitem ans_resp ''parent'' (JStr que_id0)) (\<lambda>ans1.
     andthen (Node_init ans1 [] 0) (\<lambda>ans_node.
     andthen (Node_init (JObj [(''id'', JStr que_id0), (''message'', JStr message0),
                               (''children'', JArr [id' ans_node]), (''parent'', node_id self)])
                [] 0)
       (\<lambda>que_node.
     andthen (append_child (mapping self) (node_id self) (JStr que_id0)) (\<lambda>m1.
       Inr (ans_node, que_node, m1)))))"

definition ask :: "WebChat \<Rightarrow> string \<Rightarrow> bool \<Rightarrow> env \<Rightarrow> WebChat \<times> (error + json)" where
  "ask self message0 keep w =
     (if chat_id self = JNull then
        (case chat_completion w of
           Inl e \<Rightarrow> (self, Inl e)
         | Inr (root_resp, ans_resp) \<Rightarrow>
             (case first_turn message0 (uuid1 w) (uuid2 w) root_resp ans_resp of
                Inl e \<Rightarrow> (self, Inl e)
              | Inr (tree_node, root_node, ans_node, que_node, cid) \<Rightarrow>
                  (let self1 = self\<lparr>chat_id := cid, tree_id := JStr (uuid1 w),
                                    root_id := id' root_node, node_id := id' ans_node,
                                    que_id := id' que_node\<rparr>
                   in case dict_display []
                             [(JStr (uuid1 w), tree_node), (id' root_node, root_node),
                              (id' ans_node, ans_node), (id' que_node, que_node)] of
                        Inl e \<Rightarrow> (self1, Inl e)
                      | Inr m \<Rightarrow> (self1\<lparr>mapping := m\<rparr>, Inr (message ans_node)))))
      else
        (case chat_completion w of
           Inl e \<Rightarrow> (self, Inl e)
         | Inr (ignored, ans_resp) \<Rightarrow>
             (case next_turn self message0 (uuid1 w) ans_resp of
                Inl e \<Rightarrow> (self, Inl e)
              | Inr (ans_node, que_node, m1) \<Rightarrow>
                  (let self1 = self\<lparr>mapping := m1, node_id := id' ans_node,
                                    que_id := id' que_node\<rparr>
                   in case mapping_setitem m1 (id' ans_node) ans_node of
                        Inl e \<Rightarrow> (self1, Inl e)
                      | Inr m2 \<Rightarrow>
                          (case mapping_setitem m2 (id' que_node) que_node of
                             Inl e \<Rightarrow> (self1\<lparr>mapping := m2\<rparr>, Inl e)
                           | Inr m3 \<Rightarrow> (self1\<lparr>mapping := m3\<rparr>, Inr (message ans_node)))))))"

text \<open>A run of calls of \<^verbatim>\<open>ask\<close> that all return; \<^verbatim>\<open>None\<close> when one of them raises.\<close>

fun ask_all :: "WebChat \<Rightarrow> (string \<times> bool \<times> env) list \<Rightarrow> WebChat option" where
  "ask_all self [] = Some self"
| "ask_all self ((message0, keep, w) # calls) =
     (case ask self message0 keep w of
        (self', Inr answer) \<Rightarrow> ask_all self' calls
      | (self', Inl e) \<Rightarrow> None)"

text \<open>
  The key under which the node made from a payload is stored: the key of the id that
  line 61 resolves (the \<^verbatim>\<open>parent\<close> and \<^verbatim>\<open>children\<close> that \<^verbatim>\<open>ask\<close> writes into the
  payload do not change it).
\<close>

definition node_key :: "json \<Rightarrow> key option" where
  "node_key raw = (case resolve_id raw of Inl e \<Rightarrow> None | Inr i \<Rightarrow> dict_key i)"

text \<open>
  The ids of one call are distinct: on the first turn the two generated ids and the ids of
  the two payloads differ from each other; on a later turn the generated id and the id of
  the answer payload differ from each other and from every key of the mapping.
\<close>

definition distinct_ids :: "WebChat \<Rightarrow> env \<Rightarrow> bool" where
  "distinct_ids self w =
     (case chat_completion w of
        Inl e \<Rightarrow> True
      | Inr (root_resp, ans_resp) \<Rightarrow>
          if chat_id self = JNull then
            distinct [Some (KStr (uuid1 w)), node_key root_resp, node_key ans_resp,
                      Some (KStr (uuid2 w))]
          else
            node_key ans_resp \<noteq> Some (KStr (uuid1 w)) \<and>
            node_key ans_resp \<notin> set (map (Some \<circ> fst) (mapping self)) \<and>
            KStr (uuid1 w) \<notin> set (map fst (mapping self)))"

fun distinct_run :: "WebChat \<Rightarrow> (string \<times> bool \<times> env) list \<Rightarrow> bool" where
  "distinct_run self [] = True"
| "distinct_run self ((message0, keep, w) # calls) =
     (distinct_ids self w \<and> distinct_run (fst (ask self message0 keep w)) calls)"

section \<open>The completion call\<close>

text \<open>
  \<^verbatim>\<open>webchatter.py\<close> imports the completion call from \<^verbatim>\<open>request.py\<close> under the name
  \<^verbatim>\<open>chat_completion\<close>; \<^verbatim>\<open>request.py\<close> has it as \<^verbatim>\<open>continue_chat\<close>.
\<close>

text \<open>
  \<^verbatim>\<open>s.split(sep)\<close> for a separator that is not empty: the pieces between the
  occurrences of the separator, found from left to right.
\<close>

function split_on :: "string \<Rightarrow> string \<Rightarrow> string list" where
  "split_on sep [] = [[]]"
| "split_on sep (c # cs) =
     (if sep \<noteq> [] \<and> take (length sep) (c # cs) = sep
      then [] # split_on sep (drop (length sep) (c # cs))
      else (case split_on sep cs of [] \<Rightarrow> [[c]] | p # ps \<Rightarrow> (c # p) # ps))"
  by pat_completeness auto
termination
  by (relation "measure (\<lambda>(sep, s). length s)") auto

text \<open>
  The slice \<^verbatim>\<open>xs[-3:-1]\<close>: from index \<^verbatim>\<open>max(n - 3, 0)\<close> up to, not including, index
  \<^verbatim>\<open>max(n - 1, 0)\<close>, where \<^verbatim>\<open>n\<close> is the length.
\<close>

definition slice_m3_m1 :: "'a list \<Rightarrow> 'a list" where
  "slice_m3_m1 xs = take ((length xs - 1) - (length xs - 3)) (drop (length xs - 3) xs)"

text \<open>\<^verbatim>\<open>a, b = xs\<close>: a list of any other length than two raises \<^verbatim>\<open>ValueError\<close>.\<close>

definition unpack2 :: "'a list \<Rightarrow> error + 'a \<times> 'a" where
  "unpack2 xs = (case xs of [a, b] \<Rightarrow> Inr (a, b) | _ \<Rightarrow> Inl ValueError)"

text \<open>Line 381 of \<^verbatim>\<open>request.py\<close>.\<close>

definition payload_frames :: "string \<Rightarrow> error + string \<times> string" where
  "payload_frames text = unpack2 (slice_m3_m1 (split_on ''data:'' text))"

text \<open>
  \<^verbatim>\<open>continue_chat\<close>, lines 380 to 382. The outcome of \<^verbatim>\<open>requests.post(...)\<close> and
  \<^verbatim>\<open>.text\<close> is a parameter: an exception of the transport or the text of the response.
  \<^verbatim>\<open>json.loads\<close> is a parameter too: it returns a value or raises
  \<^verbatim>\<open>JSONDecodeError\<close>.
\<close>

definition loads :: "(string \<Rightarrow> json option) \<Rightarrow> string \<Rightarrow> error + json" where
  "loads json_loads s = (case json_loads s of None \<Rightarrow> Inl JSONDecodeError | Some v \<Rightarrow> Inr v)"

definition continue_chat :: "(string \<Rightarrow> json option) \<Rightarrow> error + string \<Rightarrow> error + json \<times> json" where
  "continue_chat json_loads response =
     andthen response (\<lambda>text.
     andthen (payload_frames text) (\<lambda>(msg, info).
     andthen (loads json_loads msg) (\<lambda>m.
     andthen (loads json_loads info) (\<lambda>i. Inr (m, i)))))"

text \<open>
  The wording of the specification, for comparison: the second-to-last and the last of the
  frames that are not empty.
\<close>

definition spec_payload_frames :: "string \<Rightarrow> (string \<times> string) option" where
  "spec_payload_frames text =
     (let fs = filter (\<lambda>f. f \<noteq> []) (split_on ''data:'' text)
      in if length fs < 2 then None else Some (fs ! (length fs - 2), fs ! (length fs - 1)))"

section \<open>Example data\<close>

text \<open>
  A session as \<^verbatim>\<open>WebChat(base_url="http://host", access_token="token")\<close> builds it,
  a payload of the shape the server sends, and the environment of two calls of
  \<^verbatim>\<open>ask\<close>. The second call is a later turn, which generates one id only; its
  \<^verbatim>\<open>uuid2\<close> is never read.
\<close>

definition new_session :: WebChat where
  "new_session = \<lparr>base_url = Some ''http://host'', access_token = Some ''token'',
      backend_url = Some ''http://host/backend-api'', chat_id = JNull, node_id = JNull,
      root_id = JNull, tree_id = JNull, que_id = JNull, mapping = []\<rparr>"

definition payload :: "string \<Rightarrow> string \<Rightarrow> json \<Rightarrow> json" where
  "payload mid txt cid =
     JObj [(''message'', JObj [(''id'', JStr mid),
              (''content'', JObj [(''content_type'', JStr ''text''), (''parts'', JArr [JStr txt])])]),
           (''conversation_id'', cid)]"

definition first_call :: env where
  "first_call = \<lparr>uuid1 = ''0b5e6c1a-7d2f-4c3b-8e9a-1f2a3b4c5d6e'', uuid2 = ''9c8d7e6f-5a4b-4c3d-a2b1-0f9e8d7c6b5a'',
      chat_completion = Inr (payload ''msg-1'' ''ack'' (JStr ''conv-1''),
                             payload ''msg-2'' ''hi'' (JStr ''conv-1''))\<rparr>"

definition second_call :: env where
  "second_call = \<lparr>uuid1 = ''4a5b6c7d-8e9f-4a1b-b2c3-d4e5f6a7b8c9'', uuid2 = [],
      chat_completion = Inr (payload ''msg-3'' ''si'' (JStr ''conv-1''),
                             payload ''msg-4'' ''sure'' (JStr ''conv-1''))\<rparr>"

section \<open>Auxiliary facts\<close>

lemmas ev = ask_def first_turn_def next_turn_def append_child_def Node_init_def simplify_def
  resolve_id_def first_part_def mapping_setitem_def mapping_getitem_def Let_def
  new_session_def payload_def distinct_ids_def node_key_def first_call_def second_call_def

lemma andthen_simps [simp]: "andthen (Inl e) f = Inl e" "andthen (Inr x) f = f x"
  by (simp_all add: andthen_def)

lemma andthen_Inr_iff: "andthen m f = Inr y \<longleftrightarrow> (\<exists>x. m = Inr x \<and> f x = Inr y)"
  by (cases m) simp_all

lemma andthen_Inl_iff: "andthen m f = Inl e \<longleftrightarrow> m = Inl e \<or> (\<exists>x. m = Inr x \<and> f x = Inl e)"
  by (cases m) simp_all

lemma dict_get_Inr: "dict_get raw k = Inr v \<Longrightarrow> \<exists>d. raw = JObj d"
  by (cases raw) simp_all

lemma setitem_Inr: "setitem x k v = Inr y \<longleftrightarrow> (\<exists>d. x = JObj d \<and> y = JObj (AList.update k v d))"
  by (cases x) auto

lemma simplify_Inr_resolve: "simplify raw = Inr n \<Longrightarrow> resolve_id raw = Inr (id' n)"
  by (auto simp: simplify_def andthen_Inr_iff)

lemma simplify_Inr_parent: "simplify raw = Inr n \<Longrightarrow> dict_get raw ''parent'' = Inr (parent n)"
  by (auto simp: simplify_def andthen_Inr_iff)

lemma simplify_Inr_children:
  "simplify raw = Inr n \<Longrightarrow> \<exists>c. dict_get raw ''children'' = Inr c \<and> children n = (if truthy c then c else JArr [])"
  by (auto simp: simplify_def andthen_Inr_iff)

lemma Node_init_Inr:
  assumes "Node_init raw nm dp = Inr n"
  shows "resolve_id raw = Inr (id' n) \<and> dict_get raw ''parent'' = Inr (parent n) \<and>
     (\<exists>c. dict_get raw ''children'' = Inr c \<and> children n = (if truthy c then c else JArr []))"
proof -
  from assms obtain f where f: "simplify raw = Inr f"
    and n: "n = \<lparr>id' = id' f, message = message f, parent = parent f, children = children f,
                 name = nm, depth = dp\<rparr>"
    by (auto simp: Node_init_def andthen_Inr_iff)
  from simplify_Inr_resolve [OF f] simplify_Inr_parent [OF f] simplify_Inr_children [OF f]
  show ?thesis unfolding n by simp
qed

lemma resolve_id_update:
  "k \<noteq> ''id'' \<Longrightarrow> k \<noteq> ''message'' \<Longrightarrow> resolve_id (JObj (AList.update k v d)) = resolve_id (JObj d)"
  by (simp add: resolve_id_def update_conv')

lemma resolve_id_local:
  "resolve_id (JObj ((''id'', JStr q) # (''message'', JStr t) # rest)) = Inr i \<Longrightarrow> i = JStr q"
  by (auto simp: resolve_id_def split: if_splits)

lemma resolve_id_tree:
  "resolve_id (JObj ((''id'', JStr q) # (''message'', JNull) # rest)) = Inr i \<Longrightarrow> i = JStr q"
  by (auto simp: resolve_id_def split: if_splits)

lemma first_turn_Inr:
  assumes "first_turn message0 t q root_resp ans_resp = Inr (tn, rn, an, qn, cid)"
  shows "id' tn = JStr t" and "id' qn = JStr q"
    and "resolve_id root_resp = Inr (id' rn)" and "resolve_id ans_resp = Inr (id' an)"
    and "parent an = JStr q" and "children qn = JArr [id' an]"
    and "getitem ans_resp ''conversation_id'' = Inr cid"
  using assms
  by (auto simp: first_turn_def andthen_Inr_iff setitem_Inr update_conv' resolve_id_update
      dest!: Node_init_Inr dest: resolve_id_local resolve_id_tree split: option.splits)

lemma next_turn_Inr:
  assumes "next_turn self message0 q ans_resp = Inr (an, qn, m1)"
  shows "id' qn = JStr q" and "resolve_id ans_resp = Inr (id' an)"
    and "parent an = JStr q" and "children qn = JArr [id' an]"
    and "append_child (mapping self) (node_id self) (JStr q) = Inr m1"
  using assms
  by (auto simp: next_turn_def andthen_Inr_iff setitem_Inr update_conv' resolve_id_update
      dest!: Node_init_Inr dest: resolve_id_local split: option.splits)


lemma mapping_setitem_Inr:
  "mapping_setitem m k n = Inr m' \<longleftrightarrow> (\<exists>h. dict_key k = Some h \<and> m' = AList.update h n m)"
  by (auto simp: mapping_setitem_def split: option.splits)

lemma mapping_setitem_Inl: "mapping_setitem m k n = Inl e \<Longrightarrow> e = TypeError"
  by (auto simp: mapping_setitem_def split: option.splits)

lemma dict_display_Inl: "dict_display m kns = Inl e \<Longrightarrow> e = TypeError"
  by (induction m kns rule: dict_display.induct)
     (auto simp: andthen_Inl_iff dest: mapping_setitem_Inl)

lemma ask_completion_Inl: "chat_completion w = Inl e \<Longrightarrow> ask s message0 keep w = (s, Inl e)"
  by (simp add: ask_def)

lemma ask_first_turn_Inl:
  "chat_id s = JNull \<Longrightarrow> chat_completion w = Inr (r, ar) \<Longrightarrow>
   first_turn message0 (uuid1 w) (uuid2 w) r ar = Inl e \<Longrightarrow> ask s message0 keep w = (s, Inl e)"
  by (simp add: ask_def)

lemma ask_first_turn_Inr:
  "chat_id s = JNull \<Longrightarrow> chat_completion w = Inr (r, ar) \<Longrightarrow>
   first_turn message0 (uuid1 w) (uuid2 w) r ar = Inr (tn, rn, an, qn, cid) \<Longrightarrow>
   ask s message0 keep w =
     (case dict_display [] [(JStr (uuid1 w), tn), (id' rn, rn), (id' an, an), (id' qn, qn)] of
        Inl e \<Rightarrow> (s\<lparr>chat_id := cid, tree_id := JStr (uuid1 w), root_id := id' rn,
                    node_id := id' an, que_id := id' qn\<rparr>, Inl e)
      | Inr m \<Rightarrow> (s\<lparr>chat_id := cid, tree_id := JStr (uuid1 w), root_id := id' rn,
                    node_id := id' an, que_id := id' qn, mapping := m\<rparr>, Inr (message an)))"
  by (simp add: ask_def Let_def split: sum.splits)

lemma ask_next_turn_Inl:
  "chat_id s \<noteq> JNull \<Longrightarrow> chat_completion w = Inr (r, ar) \<Longrightarrow>
   next_turn s message0 (uuid1 w) ar = Inl e \<Longrightarrow> ask s message0 keep w = (s, Inl e)"
  by (simp add: ask_def)

lemma ask_next_turn_Inr:
  "chat_id s \<noteq> JNull \<Longrightarrow> chat_completion w = Inr (r, ar) \<Longrightarrow>
   next_turn s message0 (uuid1 w) ar = Inr (an, qn, m1) \<Longrightarrow>
   ask s message0 keep w =
     (case mapping_setitem m1 (id' an) an of
        Inl e \<Rightarrow> (s\<lparr>mapping := m1, node_id := id' an, que_id := id' qn\<rparr>, Inl e)
      | Inr m2 \<Rightarrow>
          (case mapping_setitem m2 (id' qn) qn of
             Inl e \<Rightarrow> (s\<lparr>mapping := m2, node_id := id' an, que_id := id' qn\<rparr>, Inl e)
           | Inr m3 \<Rightarrow> (s\<lparr>mapping := m3, node_id := id' an, que_id := id' qn\<rparr>,
                         Inr (message an))))"
  by (simp add: ask_def Let_def split: sum.splits)

lemma ask_first_Inr:
  assumes "chat_id s = JNull" and "ask s message0 keep w = (s', Inr a)"
  shows "\<exists>r ar tn rn an qn cid kr ka.
           chat_completion w = Inr (r, ar) \<and>
           first_turn message0 (uuid1 w) (uuid2 w) r ar = Inr (tn, rn, an, qn, cid) \<and>
           dict_key (id' rn) = Some kr \<and> dict_key (id' an) = Some ka \<and>
           s' = s\<lparr>chat_id := cid, tree_id := JStr (uuid1 w), root_id := id' rn,
                  node_id := id' an, que_id := JStr (uuid2 w),
                  mapping := AList.update (KStr (uuid2 w)) qn (AList.update ka an
                               (AList.update kr rn [(KStr (uuid1 w), tn)]))\<rparr> \<and>
           a = message an"
proof (cases "chat_completion w")
  case (Inl e)
  with assms(2) show ?thesis by (simp add: ask_completion_Inl)
next
  case (Inr p)
  obtain r ar where c: "chat_completion w = Inr (r, ar)" using Inr by (cases p) simp
  show ?thesis
  proof (cases "first_turn message0 (uuid1 w) (uuid2 w) r ar")
    case (Inl e)
    with assms c show ?thesis by (simp add: ask_first_turn_Inl)
  next
    case (Inr t)
    obtain tn rn an qn cid
      where f: "first_turn message0 (uuid1 w) (uuid2 w) r ar = Inr (tn, rn, an, qn, cid)"
      using Inr by (cases t) auto
    note q = first_turn_Inr(2) [OF f]
    let ?kns = "[(JStr (uuid1 w), tn), (id' rn, rn), (id' an, an), (id' qn, qn)]"
    from assms(2) obtain m where m: "dict_display [] ?kns = Inr m"
      and s': "s' = s\<lparr>chat_id := cid, tree_id := JStr (uuid1 w), root_id := id' rn,
                    node_id := id' an, que_id := id' qn, mapping := m\<rparr>"
      and a: "a = message an"
      unfolding ask_first_turn_Inr [OF assms(1) c f]
      by (cases "dict_display [] ?kns") simp_all
    from m obtain kr ka where k: "dict_key (id' rn) = Some kr" "dict_key (id' an) = Some ka"
      and m': "m = AList.update (KStr (uuid2 w)) qn (AList.update ka an
                               (AList.update kr rn [(KStr (uuid1 w), tn)]))"
      unfolding q by (auto simp: andthen_Inr_iff mapping_setitem_Inr)
    show ?thesis
      apply (rule exI [of _ r], rule exI [of _ ar], rule exI [of _ tn], rule exI [of _ rn])
      apply (rule exI [of _ an], rule exI [of _ qn], rule exI [of _ cid])
      apply (rule exI [of _ kr], rule exI [of _ ka])
      using c f k s' a unfolding m' q by simp
  qed
qed

lemma append_child_Inr:
  assumes "append_child m k x = Inr m1"
  shows "\<exists>h n xs. dict_key k = Some h \<and> map_of m h = Some n \<and> children n = JArr xs \<and>
           m1 = AList.update h (n\<lparr>children := JArr (xs @ [x])\<rparr>) m"
proof -
  from assms obtain h where h: "dict_key k = Some h"
    by (auto simp: append_child_def split: option.splits)
  from assms h obtain n where n: "map_of m h = Some n"
    by (auto simp: append_child_def split: option.splits)
  from assms h n obtain c where c: "list_append (children n) x = Inr c"
    and m1: "m1 = AList.update h (n\<lparr>children := c\<rparr>) m"
    by (auto simp: append_child_def andthen_Inr_iff)
  from c obtain xs where "children n = JArr xs" "c = JArr (xs @ [x])"
    by (cases "children n") auto
  with h n m1 show ?thesis by blast
qed

lemma ask_next_Inr:
  assumes "chat_id s \<noteq> JNull" and "ask s message0 keep w = (s', Inr a)"
  shows "\<exists>r ar an qn m1 ka.
           chat_completion w = Inr (r, ar) \<and>
           next_turn s message0 (uuid1 w) ar = Inr (an, qn, m1) \<and>
           dict_key (id' an) = Some ka \<and>
           s' = s\<lparr>mapping := AList.update (KStr (uuid1 w)) qn (AList.update ka an m1),
                  node_id := id' an, que_id := JStr (uuid1 w)\<rparr> \<and>
           a = message an"
proof (cases "chat_completion w")
  case (Inl e)
  with assms(2) show ?thesis by (simp add: ask_completion_Inl)
next
  case (Inr p)
  obtain r ar where c: "chat_completion w = Inr (r, ar)" using Inr by (cases p) simp
  show ?thesis
  proof (cases "next_turn s message0 (uuid1 w) ar")
    case (Inl e)
    with assms c show ?thesis by (simp add: ask_next_turn_Inl)
  next
    case (Inr t)
    obtain an qn m1
      where f: "next_turn s message0 (uuid1 w) ar = Inr (an, qn, m1)"
      using Inr by (cases t) auto
    note q = next_turn_Inr(1) [OF f]
    from assms(2) obtain m2 where m2: "mapping_setitem m1 (id' an) an = Inr m2"
      and r2: "(case mapping_setitem m2 (id' qn) qn of
             Inl e \<Rightarrow> (s\<lparr>mapping := m2, node_id := id' an, que_id := id' qn\<rparr>, Inl e)
           | Inr m3 \<Rightarrow> (s\<lparr>mapping := m3, node_id := id' an, que_id := id' qn\<rparr>,
                         Inr (message an))) = (s', Inr a)"
      unfolding ask_next_turn_Inr [OF assms(1) c f]
      by (cases "mapping_setitem m1 (id' an) an") simp_all
    from m2 obtain ka where ka: "dict_key (id' an) = Some ka" and m2': "m2 = AList.update ka an m1"
      by (auto simp: mapping_setitem_Inr)
    from r2 have s': "s' = s\<lparr>mapping := AList.update (KStr (uuid1 w)) qn m2,
                               node_id := id' an, que_id := JStr (uuid1 w)\<rparr>"
      and a: "a = message an"
      unfolding q by (simp_all add: mapping_setitem_def)
    show ?thesis
      apply (rule exI [of _ r], rule exI [of _ ar], rule exI [of _ an], rule exI [of _ qn])
      apply (rule exI [of _ m1], rule exI [of _ ka])
      using c f ka s' a unfolding m2' by simp
  qed
qed

lemma simplify_obj: "simplify raw = Inr n \<Longrightarrow> \<exists>d. raw = JObj d"
  by (auto simp: simplify_def andthen_Inr_iff dest: dict_get_Inr)

lemma simplify_JObj:
  "simplify (JObj d) =
     andthen (case map_of d ''message'' of Some (JObj m) \<Rightarrow> first_part (JObj m) | Some v \<Rightarrow> Inr v | None \<Rightarrow> Inr JNull) (\<lambda>msg.
     andthen (resolve_id (JObj d)) (\<lambda>i.
       Inr \<lparr>id' = i, message = msg,
            parent = (case map_of d ''parent'' of None \<Rightarrow> JNull | Some p \<Rightarrow> p),
            children = (case map_of d ''children'' of None \<Rightarrow> JArr [] | Some c \<Rightarrow> if truthy c then c else JArr [])\<rparr>))"
  by (auto simp: simplify_def split: option.splits json.splits)

lemma first_part_Inr:
  "first_part (JObj m) = Inr t \<longleftrightarrow>
     (\<exists>c ps. map_of m ''content'' = Some (JObj c) \<and> map_of c ''parts'' = Some ps \<and> getitem0 ps = Inr t)"
  apply (auto simp: first_part_def andthen_Inr_iff split: option.splits)
  subgoal for x by (cases x) (auto split: option.splits)
  done

lemma getitem_err: "getitem x k = Inl e \<Longrightarrow> e = KeyError \<or> e = TypeError"
  by (cases x) (auto split: option.splits)

lemma getitem0_err: "getitem0 x = Inl e \<Longrightarrow> e = KeyError \<or> e = TypeError \<or> e = IndexError"
  by (cases x rule: getitem0.cases) auto

lemma first_part_err: "first_part x = Inl e \<Longrightarrow> e = KeyError \<or> e = TypeError \<or> e = IndexError"
  by (auto simp: first_part_def andthen_Inl_iff dest: getitem_err getitem0_err)

lemma simplify_resolve_Inl:
  assumes "raw = JObj d" and "resolve_id raw = Inl e"
  shows "\<exists>e'. simplify raw = Inl e' \<and> (e' = e \<or> e' = KeyError \<or> e' = TypeError \<or> e' = IndexError)"
proof (cases "case map_of d ''message'' of Some (JObj m) \<Rightarrow> first_part (JObj m) | Some v \<Rightarrow> Inr v | None \<Rightarrow> Inr JNull")
  case (Inl e')
  then have "simplify raw = Inl e'" unfolding assms(1) simplify_JObj by simp
  moreover from Inl have "e' = KeyError \<or> e' = TypeError \<or> e' = IndexError"
    by (auto split: option.splits json.splits dest: first_part_err)
  ultimately show ?thesis by blast
next
  case (Inr t)
  then have "simplify raw = Inl e" using assms(2) unfolding assms(1) simplify_JObj by simp
  then show ?thesis by blast
qed

lemma slice_short: "length xs < 3 \<Longrightarrow> unpack2 (slice_m3_m1 xs) = Inl ValueError"
proof (cases xs)
  case Nil
  then show ?thesis by (simp add: slice_m3_m1_def unpack2_def)
next
  case (Cons a ys)
  assume "length xs < 3"
  with Cons have "length ys < 2" by simp
  then show ?thesis unfolding Cons
    by (cases ys) (simp_all add: slice_m3_m1_def unpack2_def)
qed

lemma slice_long:
  assumes "3 \<le> length xs"
  shows "slice_m3_m1 xs = [xs ! (length xs - 3), xs ! (length xs - 2)]"
proof -
  let ?k = "length xs - 3"
  have k: "?k < length xs" "Suc ?k < length xs" using assms by simp_all
  have "drop ?k xs = xs ! ?k # xs ! Suc ?k # drop (Suc (Suc ?k)) xs"
    using k by (simp add: Cons_nth_drop_Suc)
  moreover have "Suc ?k = length xs - 2" using assms by simp
  moreover have "(length xs - 1) - ?k = 2" using assms by simp
  ultimately show ?thesis by (simp add: slice_m3_m1_def)
qed

lemma length_update_alist:
  "length (AList.update k v al) = (if k \<in> fst ` set al then length al else Suc (length al))"
  by (induction al) auto

lemma keys_update_alist:
  "fst ` set (AList.update k v al) = insert k (fst ` set al)"
  by (induction al) auto

lemma node_keyI: "resolve_id raw = Inr i \<Longrightarrow> dict_key i = Some h \<Longrightarrow> node_key raw = Some h"
  by (simp add: node_key_def)

lemma first_ask_length:
  assumes "chat_id s = JNull" and "ask s message0 keep w = (s', Inr a)" and "distinct_ids s w"
  shows "length (mapping s') = 4 \<and>
         (\<exists>r ar. chat_completion w = Inr (r, ar) \<and>
                  getitem ar ''conversation_id'' = Inr (chat_id s'))"
proof -
  from ask_first_Inr [OF assms(1,2)] obtain r ar tn rn an qn cid kr ka
    where c: "chat_completion w = Inr (r, ar)"
      and f: "first_turn message0 (uuid1 w) (uuid2 w) r ar = Inr (tn, rn, an, qn, cid)"
      and kr: "dict_key (id' rn) = Some kr" and ka: "dict_key (id' an) = Some ka"
      and s': "s' = s\<lparr>chat_id := cid, tree_id := JStr (uuid1 w), root_id := id' rn,
                  node_id := id' an, que_id := JStr (uuid2 w),
                  mapping := AList.update (KStr (uuid2 w)) qn (AList.update ka an
                               (AList.update kr rn [(KStr (uuid1 w), tn)]))\<rparr>"
    by blast
  note ff = first_turn_Inr [OF f]
  have nr: "node_key r = Some kr" using ff(3) kr by (rule node_keyI)
  have na: "node_key ar = Some ka" using ff(4) ka by (rule node_keyI)
  from assms(3) have d: "distinct [KStr (uuid1 w), kr, ka, KStr (uuid2 w)]"
    unfolding distinct_ids_def c using assms(1) nr na by auto
  have "length (mapping s') = 4" unfolding s' using d
    by (simp add: length_update_alist keys_update_alist)
  moreover have "getitem ar ''conversation_id'' = Inr (chat_id s')"
    using ff(7) unfolding s' by simp
  ultimately show ?thesis using c by blast
qed

lemma next_ask_length:
  assumes "chat_id s \<noteq> JNull" and "ask s message0 keep w = (s', Inr a)" and "distinct_ids s w"
  shows "length (mapping s') = length (mapping s) + 2 \<and> chat_id s' = chat_id s"
proof -
  from ask_next_Inr [OF assms(1,2)] obtain r ar an qn m1 ka
    where c: "chat_completion w = Inr (r, ar)"
      and f: "next_turn s message0 (uuid1 w) ar = Inr (an, qn, m1)"
      and ka: "dict_key (id' an) = Some ka"
      and s': "s' = s\<lparr>mapping := AList.update (KStr (uuid1 w)) qn (AList.update ka an m1),
                  node_id := id' an, que_id := JStr (uuid1 w)\<rparr>"
    by blast
  note ff = next_turn_Inr [OF f]
  from append_child_Inr [OF ff(5)] obtain h n xs
    where h: "map_of (mapping s) h = Some n"
      and m1: "m1 = AList.update h (n\<lparr>children := JArr (xs @ [JStr (uuid1 w)])\<rparr>) (mapping s)"
    by blast
  from h have hin: "h \<in> fst ` set (mapping s)"
    by (metis domI dom_map_of_conv_image_fst)
  have len1: "length m1 = length (mapping s)" and keys1: "fst ` set m1 = fst ` set (mapping s)"
    unfolding m1 using hin by (auto simp: length_update_alist keys_update_alist)
  have na: "node_key ar = Some ka" using ff(2) ka by (rule node_keyI)
  from assms(3) have d: "ka \<noteq> KStr (uuid1 w)" "ka \<notin> fst ` set (mapping s)"
    "KStr (uuid1 w) \<notin> fst ` set (mapping s)"
    unfolding distinct_ids_def c using assms(1) na by auto
  have "length (mapping s') = length (mapping s) + 2" unfolding s' using d len1 keys1
    by (simp add: length_update_alist keys_update_alist)
  then show ?thesis unfolding s' by simp
qed

lemma ask_all_next:
  assumes "chat_id s \<noteq> JNull" and "ask_all s calls = Some s'" and "distinct_run s calls"
  shows "length (mapping s') = length (mapping s) + 2 * length calls \<and> chat_id s' = chat_id s"
  using assms
proof (induction calls arbitrary: s)
  case Nil
  then show ?case by simp
next
  case (Cons call calls)
  obtain message0 keep w where call: "call = (message0, keep, w)" by (cases call) auto
  from Cons.prems(2) obtain s1 a where a1: "ask s message0 keep w = (s1, Inr a)"
    and rest: "ask_all s1 calls = Some s'"
    unfolding call by (auto split: prod.splits sum.splits)
  from Cons.prems(3) have d: "distinct_ids s w" and dr: "distinct_run s1 calls"
    unfolding call using a1 by simp_all
  from next_ask_length [OF Cons.prems(1) a1 d]
  have l1: "length (mapping s1) = length (mapping s) + 2" and c1: "chat_id s1 = chat_id s" by simp_all
  from c1 Cons.prems(1) have "chat_id s1 \<noteq> JNull" by simp
  from Cons.IH [OF this rest dr] l1 c1 show ?case by simp
qed

lemma ask_empty_fails:
  assumes "mapping s = []" and "chat_id s \<noteq> JNull"
  shows "\<exists>e. snd (ask s message0 keep w) = Inl e"
proof (cases "ask s message0 keep w")
  case (Pair s' res)
  show ?thesis
  proof (cases res)
    case (Inl e)
    with Pair show ?thesis by simp
  next
    case (Inr a)
    from ask_next_Inr [OF assms(2) Pair [unfolded Inr]] obtain ar an qn m1
      where "next_turn s message0 (uuid1 w) ar = Inr (an, qn, m1)" by blast
    from append_child_Inr [OF next_turn_Inr(5) [OF this]] assms(1) show ?thesis by auto
  qed
qed

lemma ask_store_size_run:
  assumes "mapping self = []"
    and "ask_all self ((message0, keep, w) # calls) = Some self'"
    and "distinct_run self ((message0, keep, w) # calls)"
    and "chat_completion w = Inr (root_resp, ans_resp)"
    and "getitem ans_resp ''conversation_id'' \<noteq> Inr JNull"
  shows "length (mapping (fst (ask self message0 keep w))) = 4 \<and>
         length (mapping self') = 2 * length ((message0, keep, w) # calls) + 2 \<and>
         getitem ans_resp ''conversation_id'' = Inr (chat_id self') \<and>
         chat_id self' \<noteq> JNull"
proof -
  from assms(2) obtain s1 a where a1: "ask self message0 keep w = (s1, Inr a)"
    and rest: "ask_all s1 calls = Some self'"
    by (auto split: prod.splits sum.splits)
  have first: "chat_id self = JNull"
  proof (rule ccontr)
    assume "chat_id self \<noteq> JNull"
    from ask_empty_fails [OF assms(1) this, of message0 keep w] a1 show False by simp
  qed
  from assms(3) have d: "distinct_ids self w" and dr: "distinct_run s1 calls"
    using a1 by simp_all
  from first_ask_length [OF first a1 d] assms(4)
  have l1: "length (mapping s1) = 4" and c1: "getitem ans_resp ''conversation_id'' = Inr (chat_id s1)"
    by auto
  from c1 assms(5) have n1: "chat_id s1 \<noteq> JNull" by auto
  from ask_all_next [OF n1 rest dr] l1 c1 n1 a1 show ?thesis by simp
qed

lemma ask_all_append:
  "ask_all s (xs @ ys) = (case ask_all s xs of None \<Rightarrow> None | Some s1 \<Rightarrow> ask_all s1 ys)"
proof (induction xs arbitrary: s)
  case Nil
  then show ?case by simp
next
  case (Cons call xs)
  obtain message0 keep w where call: "call = (message0, keep, w)" by (cases call) auto
  show ?case unfolding call using Cons.IH
    by (simp split: prod.splits sum.splits)
qed

lemma distinct_run_append: "distinct_run s (xs @ ys) \<Longrightarrow> distinct_run s xs"
proof (induction xs arbitrary: s)
  case Nil
  then show ?case by simp
next
  case (Cons call xs)
  obtain message0 keep w where call: "call = (message0, keep, w)" by (cases call) auto
  from Cons.prems Cons.IH show ?case unfolding call by simp
qed

lemma ask_all_take:
  assumes "ask_all s calls = Some s'"
  shows "\<exists>s1. ask_all s (take k calls) = Some s1"
proof -
  have "ask_all s (take k calls @ drop k calls) = Some s'" using assms by simp
  then show ?thesis unfolding ask_all_append by (auto split: option.splits)
qed

lemma distinct_run_take: "distinct_run s calls \<Longrightarrow> distinct_run s (take k calls)"
  using distinct_run_append [of s "take k calls" "drop k calls"] by simp

section \<open>The claims\<close>

subsection \<open>Node normalization\<close>

text \<open>
  Claim C4, as amended. \<^verbatim>\<open>Node.simplify\<close> takes the node id from the \<^verbatim>\<open>id\<close> entry of
  the raw node when that entry is present and true as a truth value, and from
  \<^verbatim>\<open>message.id\<close> otherwise. When the \<^verbatim>\<open>id\<close> entry is absent or false and the raw node
  has no \<^verbatim>\<open>message\<close> that can be subscripted to an \<^verbatim>\<open>id\<close>, the call raises
  \<^verbatim>\<open>KeyError\<close>, \<^verbatim>\<open>TypeError\<close> or \<^verbatim>\<open>IndexError\<close>; the code has no
  \<^verbatim>\<open>MalformedNodeError\<close>.
\<close>

theorem simplify_id_resolution:
  "(simplify raw = Inr n \<longrightarrow>
      (\<exists>i. dict_get raw ''id'' = Inr i \<and>
           (if truthy i then id' n = i
            else \<exists>m. getitem raw ''message'' = Inr m \<and> getitem m ''id'' = Inr (id' n)))) \<and>
   (dict_get raw ''id'' = Inr i \<longrightarrow> \<not> truthy i \<longrightarrow>
      (\<nexists>m v. getitem raw ''message'' = Inr m \<and> getitem m ''id'' = Inr v) \<longrightarrow>
      (\<exists>e. simplify raw = Inl e \<and> e \<in> {KeyError, TypeError, IndexError}))"
proof (intro conjI impI)
  assume "simplify raw = Inr n"
  then have "resolve_id raw = Inr (id' n)" by (rule simplify_Inr_resolve)
  then show "\<exists>i. dict_get raw ''id'' = Inr i \<and>
           (if truthy i then id' n = i
            else \<exists>m. getitem raw ''message'' = Inr m \<and> getitem m ''id'' = Inr (id' n))"
    by (auto simp: resolve_id_def andthen_Inr_iff split: if_splits)
next
  assume i: "dict_get raw ''id'' = Inr i" and f: "\<not> truthy i"
    and no: "\<nexists>m v. getitem raw ''message'' = Inr m \<and> getitem m ''id'' = Inr v"
  from i obtain d where d: "raw = JObj d" by (auto dest: dict_get_Inr)
  have r: "resolve_id raw = andthen (getitem raw ''message'') (\<lambda>m. getitem m ''id'')"
    using i f by (simp add: resolve_id_def)
  obtain e where e: "resolve_id raw = Inl e"
  proof (cases "resolve_id raw")
    case (Inl e) then show ?thesis by (rule that)
  next
    case (Inr v)
    then have False using no unfolding r by (auto simp: andthen_Inr_iff)
    then show ?thesis ..
  qed
  then have "e = KeyError \<or> e = TypeError"
    unfolding r by (auto simp: andthen_Inl_iff dest: getitem_err)
  with simplify_resolve_Inl [OF d e]
  show "\<exists>e. simplify raw = Inl e \<and> e \<in> {KeyError, TypeError, IndexError}" by auto
qed

text \<open>
  The claim as stated fails on the empty raw node, which has neither id: the call raises
  \<^verbatim>\<open>KeyError\<close>, not \<^verbatim>\<open>MalformedNodeError\<close>.
\<close>

theorem simplify_id_counterexample:
  "simplify (JObj []) = Inl KeyError \<and> KeyError \<noteq> Error ''MalformedNodeError''"
  by (simp add: simplify_def resolve_id_def)

theorem simplify_id_resolution_witness:
  "id' \<lparr>id' = JStr ''n1'', message = JNull, parent = JNull, children = JArr []\<rparr> = JStr ''n1''
   \<and> simplify (JObj [(''id'', JStr ''n1'')])
       = Inr \<lparr>id' = JStr ''n1'', message = JNull, parent = JNull, children = JArr []\<rparr>
   \<and> (\<exists>e. simplify (JObj [(''id'', JInt 0), (''message'', JStr ''text'')]) = Inl e \<and>
           e \<in> {KeyError, TypeError, IndexError})"
  using simplify_id_resolution [of "JObj [(''id'', JStr ''n1'')]"
          "\<lparr>id' = JStr ''n1'', message = JNull, parent = JNull, children = JArr []\<rparr>"
          "JStr ''n1''"]
        simplify_id_resolution [of "JObj [(''id'', JInt 0), (''message'', JStr ''text'')]"
          "\<lparr>id' = JNull, message = JNull, parent = JNull, children = JNull\<rparr>" "JInt 0"]
  by (simp add: simplify_def resolve_id_def)

text \<open>
  Claim C5. When \<^verbatim>\<open>Node.simplify\<close> returns, the \<^verbatim>\<open>message\<close> it returns is
  \<^verbatim>\<open>raw.message.content.parts[0]\<close> if \<^verbatim>\<open>raw.message\<close> is a dictionary and is
  \<^verbatim>\<open>raw.get("message")\<close> unchanged otherwise (\<^verbatim>\<open>None\<close> included); the \<^verbatim>\<open>children\<close>
  it returns are the empty list if \<^verbatim>\<open>raw.get("children")\<close> is absent or false as a truth
  value, and the raw children unchanged otherwise.
\<close>

theorem simplify_message_children:
  assumes "simplify raw = Inr n"
  shows "(\<exists>v. dict_get raw ''message'' = Inr v) \<and>
         (\<forall>m. dict_get raw ''message'' = Inr (JObj m) \<longrightarrow>
            (\<exists>c ps. getitem (JObj m) ''content'' = Inr c \<and> getitem c ''parts'' = Inr ps \<and>
                     getitem0 ps = Inr (message n))) \<and>
         (\<forall>v. dict_get raw ''message'' = Inr v \<longrightarrow> (\<nexists>m. v = JObj m) \<longrightarrow> message n = v) \<and>
         (\<forall>c. dict_get raw ''children'' = Inr c \<longrightarrow>
            children n = (if truthy c then c else JArr []))"
proof -
  from assms obtain d where d: "raw = JObj d" using simplify_obj by blast
  from assms[unfolded d simplify_JObj] show ?thesis unfolding d
    by (auto simp: andthen_Inr_iff first_part_Inr split: option.splits json.splits)
qed

theorem simplify_message_children_witness:
  "message \<lparr>id' = JStr ''n1'', message = JStr ''hi'', parent = JNull, children = JArr []\<rparr> = JStr ''hi''
   \<and> children \<lparr>id' = JStr ''n1'', message = JStr ''hi'', parent = JNull, children = JArr []\<rparr> = JArr []
   \<and> simplify (JObj [(''id'', JStr ''n1''),
        (''message'', JObj [(''content'', JObj [(''parts'', JArr [JStr ''hi'', JStr ''there''])])])])
     = Inr \<lparr>id' = JStr ''n1'', message = JStr ''hi'', parent = JNull, children = JArr []\<rparr>"
  using simplify_message_children [of "JObj [(''id'', JStr ''n1''),
        (''message'', JObj [(''content'', JObj [(''parts'', JArr [JStr ''hi'', JStr ''there''])])])]"
      "\<lparr>id' = JStr ''n1'', message = JStr ''hi'', parent = JNull, children = JArr []\<rparr>"]
  by (simp add: simplify_def resolve_id_def first_part_def)

text \<open>
  Claim C10. For a raw node whose \<^verbatim>\<open>id\<close> entry is present but false as a truth value and
  whose \<^verbatim>\<open>message\<close> is a dictionary with an \<^verbatim>\<open>id\<close>, line 61 resolves the node id to
  \<^verbatim>\<open>message.id\<close>: every node that \<^verbatim>\<open>Node.simplify\<close> returns has that id, and it returns
  one whenever \<^verbatim>\<open>message.content.parts[0]\<close> can be read.
\<close>

theorem simplify_falsy_id:
  assumes "dict_get raw ''id'' = Inr i" and "\<not> truthy i"
    and "dict_get raw ''message'' = Inr (JObj m)" and "getitem (JObj m) ''id'' = Inr v"
  shows "resolve_id raw = Inr v \<and>
         (\<forall>n. simplify raw = Inr n \<longrightarrow> id' n = v) \<and>
         (\<forall>t. first_part (JObj m) = Inr t \<longrightarrow> (\<exists>n. simplify raw = Inr n \<and> id' n = v))"
proof -
  from assms(1) obtain d where d: "raw = JObj d" by (auto dest: dict_get_Inr)
  have r: "resolve_id raw = Inr v"
    using assms unfolding d by (auto simp: resolve_id_def split: option.splits)
  show ?thesis using r assms(3) unfolding d simplify_JObj
    by (auto simp: andthen_Inr_iff split: option.splits json.splits)
qed

theorem simplify_falsy_id_witness:
  "resolve_id (JObj [(''id'', JStr []), (''message'', JObj [(''id'', JStr ''m1''),
       (''content'', JObj [(''parts'', JArr [JStr ''hi''])])])]) = Inr (JStr ''m1'')
   \<and> (\<exists>n. simplify (JObj [(''id'', JStr []), (''message'', JObj [(''id'', JStr ''m1''),
       (''content'', JObj [(''parts'', JArr [JStr ''hi''])])])]) = Inr n \<and> id' n = JStr ''m1'')"
  using simplify_falsy_id [of "JObj [(''id'', JStr []), (''message'', JObj [(''id'', JStr ''m1''),
       (''content'', JObj [(''parts'', JArr [JStr ''hi''])])])]" "JStr []"
       "[(''id'', JStr ''m1''), (''content'', JObj [(''parts'', JArr [JStr ''hi''])])]" "JStr ''m1''"]
  by (simp add: first_part_def)

subsection \<open>The completion call\<close>

text \<open>
  Claim C3, as amended. \<^verbatim>\<open>continue_chat\<close> splits the response text on \<^verbatim>\<open>data:\<close> and
  returns, parsed as JSON, the third-to-last and the second-to-last piece of the split,
  empty or not; the last piece (the end marker of the stream) is not used. When the split
  has fewer than three pieces the call raises \<^verbatim>\<open>ValueError\<close>, when one of the two pieces
  is not JSON it raises \<^verbatim>\<open>JSONDecodeError\<close>, and an exception of the transport comes out
  as it is; the code has no \<^verbatim>\<open>RemoteCallError\<close>.
\<close>

theorem continue_chat_frames:
  "continue_chat json_loads (Inl e) = Inl e \<and>
   continue_chat json_loads (Inr text) =
     (let ps = split_on ''data:'' text; n = length ps
      in if n < 3 then Inl ValueError
         else (case json_loads (ps ! (n - 3)) of
                 None \<Rightarrow> Inl JSONDecodeError
               | Some m \<Rightarrow>
                   (case json_loads (ps ! (n - 2)) of
                      None \<Rightarrow> Inl JSONDecodeError
                    | Some i \<Rightarrow> Inr (m, i))))"
proof (cases "length (split_on ''data:'' text) < 3")
  case True
  then show ?thesis
    by (simp add: continue_chat_def payload_frames_def slice_short Let_def)
next
  case False
  then have "3 \<le> length (split_on ''data:'' text)" by simp
  from slice_long [OF this] False show ?thesis
    by (simp add: continue_chat_def payload_frames_def unpack2_def loads_def Let_def
             split: option.splits)
qed

text \<open>
  The claim as stated fails on a stream of three frames: the code returns the first and
  the second, the wording of the specification selects the second and the third.
\<close>

theorem continue_chat_frames_counterexample:
  "payload_frames ''data: {}data: []data: [DONE]'' = Inr ('' {}'', '' []'') \<and>
   spec_payload_frames ''data: {}data: []data: [DONE]'' = Some ('' []'', '' [DONE]'') \<and>
   ('' {}'', '' []'') \<noteq> ('' []'', '' [DONE]'')"
  by (simp add: payload_frames_def spec_payload_frames_def slice_m3_m1_def unpack2_def)

theorem continue_chat_frames_witness:
  "continue_chat (\<lambda>s. if s = '' 1'' then Some (JInt 1) else if s = '' 2'' then Some (JInt 2) else None)
     (Inr ''data: 1data: 2data: [DONE]'') = Inr (JInt 1, JInt 2) \<and>
   continue_chat (\<lambda>s. if s = '' 1'' then Some (JInt 1) else if s = '' 2'' then Some (JInt 2) else None)
     (Inr ''data: 1'') = Inl ValueError \<and>
   continue_chat (\<lambda>s. if s = '' 1'' then Some (JInt 1) else if s = '' 2'' then Some (JInt 2) else None)
     (Inr ''data: 1data: [DONE]'') = Inl JSONDecodeError \<and>
   continue_chat (\<lambda>s. if s = '' 1'' then Some (JInt 1) else if s = '' 2'' then Some (JInt 2) else None)
     (Inl (Error ''ConnectionError'')) = Inl (Error ''ConnectionError'')"
  using continue_chat_frames [of "\<lambda>s. if s = '' 1'' then Some (JInt 1) else if s = '' 2'' then Some (JInt 2) else None"
      "Error ''ConnectionError''" "''data: 1data: 2data: [DONE]''"]
    continue_chat_frames [of "\<lambda>s. if s = '' 1'' then Some (JInt 1) else if s = '' 2'' then Some (JInt 2) else None"
      "Error ''ConnectionError''" "''data: 1''"]
    continue_chat_frames [of "\<lambda>s. if s = '' 1'' then Some (JInt 1) else if s = '' 2'' then Some (JInt 2) else None"
      "Error ''ConnectionError''" "''data: 1data: [DONE]''"]
  by (simp add: Let_def)

subsection \<open>Properties of the session\<close>

text \<open>
  Claim C6, as amended. For every session and every value, an assignment to
  \<^verbatim>\<open>chat_id\<close>, \<^verbatim>\<open>access_token\<close> or \<^verbatim>\<open>node_id\<close> raises \<^verbatim>\<open>AttributeError\<close> and leaves
  the session as it was. A session constructed without a \<^verbatim>\<open>chat_id\<close> argument has
  \<^verbatim>\<open>chat_id\<close> \<^verbatim>\<open>None\<close>, and no assignment changes that.
\<close>

theorem setters_raise:
  "set_chat_id self v = (self, Inl AttributeError) \<and>
   set_access_token self v = (self, Inl AttributeError) \<and>
   set_node_id self v = (self, Inl AttributeError) \<and>
   (WebChat_init g base_url0 backend_url0 access_token0 None node_id0 = Inr self \<longrightarrow>
      chat_id self = JNull \<and> chat_id (fst (set_chat_id self v)) = JNull)"
  by (auto simp: set_chat_id_def set_access_token_def set_node_id_def WebChat_init_def Let_def
        andthen_def opt_json_def split: sum.splits if_splits option.splits)

text \<open>
  The claim as stated fails for a session constructed with a \<^verbatim>\<open>chat_id\<close> argument: its
  \<^verbatim>\<open>chat_id\<close> is not \<^verbatim>\<open>None\<close> before any call of \<^verbatim>\<open>ask\<close>.
\<close>

theorem chat_id_counterexample:
  "WebChat_init \<lparr>global_base_url = None, global_backend_url = None, global_access_token = None\<rparr>
     (Some ''http://host'') None (Some ''token'') (Some ''c1'') None
   = Inr \<lparr>base_url = Some ''http://host'', access_token = Some ''token'',
          backend_url = Some ''http://host/backend-api'', chat_id = JStr ''c1'',
          node_id = JNull, root_id = JNull, tree_id = JNull, que_id = JNull, mapping = []\<rparr>
   \<and> JStr ''c1'' \<noteq> JNull"
  by (simp add: WebChat_init_def por_def path_join_def opt_json_def)

theorem setters_raise_witness:
  "WebChat_init \<lparr>global_base_url = None, global_backend_url = None, global_access_token = None\<rparr>
     (Some ''http://host'') None (Some ''token'') None None = Inr new_session \<and>
   chat_id new_session = JNull \<and>
   set_chat_id new_session (JStr ''conv-9'') = (new_session, Inl AttributeError) \<and>
   set_access_token new_session (JStr ''conv-9'') = (new_session, Inl AttributeError) \<and>
   set_node_id new_session (JStr ''conv-9'') = (new_session, Inl AttributeError)"
  using setters_raise [where self = new_session and v = "JStr ''conv-9''"
      and g = "\<lparr>global_base_url = None, global_backend_url = None, global_access_token = None\<rparr>"
      and ?base_url0.0 = "Some ''http://host''" and ?backend_url0.0 = None
      and ?access_token0.0 = "Some ''token''" and ?node_id0.0 = None]
  by (simp add: WebChat_init_def por_def path_join_def opt_json_def new_session_def)

text \<open>
  Claim C9. For every constructed session and every string \<^verbatim>\<open>u\<close>, the assignment
  \<^verbatim>\<open>self.base_url = u\<close> sets \<^verbatim>\<open>backend_url\<close> to \<^verbatim>\<open>os.path.join(u, "backend-api")\<close> and
  changes nothing else: \<^verbatim>\<open>base_url\<close> still returns the value fixed at construction.
\<close>

theorem base_url_setter:
  assumes "WebChat_init g base_url0 backend_url0 access_token0 chat_id0 node_id0 = Inr self"
  shows "set_base_url self u = (self\<lparr>backend_url := Some (path_join u ''backend-api'')\<rparr>, Inr ()) \<and>
         backend_url (fst (set_base_url self u)) = Some (path_join u ''backend-api'') \<and>
         base_url (fst (set_base_url self u)) = base_url self \<and>
         base_url self = por base_url0 (global_base_url g)"
  using assms
  by (auto simp: set_base_url_def WebChat_init_def Let_def andthen_def split: sum.splits if_splits option.splits)

theorem base_url_setter_witness:
  "WebChat_init \<lparr>global_base_url = None, global_backend_url = None, global_access_token = None\<rparr>
     (Some ''http://host'') None (Some ''token'') None None = Inr new_session \<and>
   backend_url (fst (set_base_url new_session ''http://other/'')) = Some ''http://other/backend-api'' \<and>
   base_url (fst (set_base_url new_session ''http://other/'')) = Some ''http://host''"
proof -
  have h: "WebChat_init \<lparr>global_base_url = None, global_backend_url = None, global_access_token = None\<rparr>
     (Some ''http://host'') None (Some ''token'') None None = Inr new_session"
    by (simp add: WebChat_init_def por_def path_join_def opt_json_def new_session_def)
  from base_url_setter [OF h, of "''http://other/''"] h show ?thesis
    by (simp add: path_join_def por_def)
qed

subsection \<open>goto\<close>

text \<open>
  Claim C8. \<^verbatim>\<open>goto\<close> is meant to move the current answer pointer (the setter of
  \<^verbatim>\<open>node_id\<close> tells the caller to use it), but its body is empty. After a first turn,
  \<^verbatim>\<open>goto\<close> to the root node, which is in the mapping and has a message, returns
  \<^verbatim>\<open>None\<close> and leaves \<^verbatim>\<open>node_id\<close> at the answer node; \<^verbatim>\<open>goto\<close> to an id that is not
  in the mapping returns \<^verbatim>\<open>None\<close> as well, without an exception.
\<close>

theorem goto_stub:
  "node_id (fst (ask new_session ''hello'' True first_call)) = JStr ''msg-2'' \<and>
   (\<exists>n. mapping_getitem (mapping (fst (ask new_session ''hello'' True first_call))) (JStr ''msg-1'') = Inr n
        \<and> message n = JStr ''ack'') \<and>
   goto (fst (ask new_session ''hello'' True first_call)) (JStr ''msg-1'')
     = (fst (ask new_session ''hello'' True first_call), Inr JNull) \<and>
   mapping_getitem (mapping (fst (ask new_session ''hello'' True first_call))) (JStr ''nowhere'') = Inl KeyError \<and>
   goto (fst (ask new_session ''hello'' True first_call)) (JStr ''nowhere'')
     = (fst (ask new_session ''hello'' True first_call), Inr JNull)"
  by (simp add: ev goto_def)

subsection \<open>ask\<close>

text \<open>
  Claim C7. After every call of \<^verbatim>\<open>ask\<close> that returns, \<^verbatim>\<open>que_id\<close> and \<^verbatim>\<open>node_id\<close> are
  keys of the mapping; the node stored under \<^verbatim>\<open>que_id\<close> is the new question node and its
  children are exactly the new answer id; the new answer node has the id \<^verbatim>\<open>node_id\<close>,
  the parent \<^verbatim>\<open>que_id\<close> and the returned text as message, and it is the node stored under
  \<^verbatim>\<open>node_id\<close> whenever the two ids are different keys.
\<close>

theorem ask_pointers_in_mapping:
  assumes "ask self message0 keep w = (self', Inr answer)"
  shows "\<exists>qn an. id' qn = que_id self' \<and> id' an = node_id self' \<and>
           mapping_getitem (mapping self') (que_id self') = Inr qn \<and>
           (\<exists>x. mapping_getitem (mapping self') (node_id self') = Inr x) \<and>
           children qn = JArr [node_id self'] \<and> parent an = que_id self' \<and>
           message an = answer \<and>
           (dict_key (node_id self') \<noteq> dict_key (que_id self') \<longrightarrow>
              mapping_getitem (mapping self') (node_id self') = Inr an)"
proof (cases "chat_id self = JNull")
  case True
  from ask_first_Inr [OF True assms] obtain r ar tn rn an qn cid kr ka
    where f: "first_turn message0 (uuid1 w) (uuid2 w) r ar = Inr (tn, rn, an, qn, cid)"
      and ka: "dict_key (id' an) = Some ka"
      and s': "self' = self\<lparr>chat_id := cid, tree_id := JStr (uuid1 w), root_id := id' rn,
                  node_id := id' an, que_id := JStr (uuid2 w),
                  mapping := AList.update (KStr (uuid2 w)) qn (AList.update ka an
                               (AList.update kr rn [(KStr (uuid1 w), tn)]))\<rparr>"
      and a: "answer = message an"
    by blast
  note ff = first_turn_Inr [OF f]
  show ?thesis
    apply (rule exI [of _ qn], rule exI [of _ an])
    using ff ka a unfolding s' by (simp add: mapping_getitem_def update_conv')
next
  case False
  from ask_next_Inr [OF False assms] obtain r ar an qn m1 ka
    where f: "next_turn self message0 (uuid1 w) ar = Inr (an, qn, m1)"
      and ka: "dict_key (id' an) = Some ka"
      and s': "self' = self\<lparr>mapping := AList.update (KStr (uuid1 w)) qn (AList.update ka an m1),
                  node_id := id' an, que_id := JStr (uuid1 w)\<rparr>"
      and a: "answer = message an"
    by blast
  note ff = next_turn_Inr [OF f]
  show ?thesis
    apply (rule exI [of _ qn], rule exI [of _ an])
    using ff ka a unfolding s' by (simp add: mapping_getitem_def update_conv')
qed

theorem ask_pointers_in_mapping_witness:
  "snd (ask new_session ''hello'' True first_call) = Inr (JStr ''hi'') \<and>
   que_id (fst (ask new_session ''hello'' True first_call)) = JStr ''9c8d7e6f-5a4b-4c3d-a2b1-0f9e8d7c6b5a'' \<and>
   node_id (fst (ask new_session ''hello'' True first_call)) = JStr ''msg-2'' \<and>
   (\<exists>qn an.
      mapping_getitem (mapping (fst (ask new_session ''hello'' True first_call))) (JStr ''9c8d7e6f-5a4b-4c3d-a2b1-0f9e8d7c6b5a'') = Inr qn \<and>
      mapping_getitem (mapping (fst (ask new_session ''hello'' True first_call))) (JStr ''msg-2'') = Inr an \<and>
      children qn = JArr [JStr ''msg-2''] \<and> parent an = JStr ''9c8d7e6f-5a4b-4c3d-a2b1-0f9e8d7c6b5a'')"
proof -
  have h: "snd (ask new_session ''hello'' True first_call) = Inr (JStr ''hi'')" by (simp add: ev)
  then have h': "ask new_session ''hello'' True first_call
      = (fst (ask new_session ''hello'' True first_call), Inr (JStr ''hi''))"
    by (metis prod.collapse)
  have q: "que_id (fst (ask new_session ''hello'' True first_call)) = JStr ''9c8d7e6f-5a4b-4c3d-a2b1-0f9e8d7c6b5a''"
    and n: "node_id (fst (ask new_session ''hello'' True first_call)) = JStr ''msg-2''"
    by (simp_all add: ev)
  from ask_pointers_in_mapping [OF h'] show ?thesis unfolding q n using h by auto
qed

text \<open>
  Claim C2, as amended. When the completion call raises, \<^verbatim>\<open>ask\<close> raises the same
  exception (the code has no \<^verbatim>\<open>RemoteCallError\<close>) and the session is exactly as it was
  before the call. The same holds for every call of \<^verbatim>\<open>ask\<close> that raises anything but
  \<^verbatim>\<open>TypeError\<close>.
\<close>

theorem ask_failure_keeps_state:
  "(chat_completion w = Inl e \<longrightarrow> ask self message0 keep w = (self, Inl e)) \<and>
   (ask self message0 keep w = (self', Inl e) \<longrightarrow> e \<noteq> TypeError \<longrightarrow> self' = self)"
proof (intro conjI impI)
  assume "chat_completion w = Inl e"
  then show "ask self message0 keep w = (self, Inl e)" by (rule ask_completion_Inl)
next
  assume a: "ask self message0 keep w = (self', Inl e)" and e: "e \<noteq> TypeError"
  show "self' = self"
  proof (cases "chat_completion w")
    case (Inl e')
    with a show ?thesis by (simp add: ask_completion_Inl)
  next
    case (Inr p)
    obtain r ar where c: "chat_completion w = Inr (r, ar)" using Inr by (cases p) simp
    show ?thesis
    proof (cases "chat_id self = JNull")
      case True
      show ?thesis
      proof (cases "first_turn message0 (uuid1 w) (uuid2 w) r ar")
        case (Inl e')
        with a c True show ?thesis by (simp add: ask_first_turn_Inl)
      next
        case (Inr t)
        obtain tn rn an qn cid
          where f: "first_turn message0 (uuid1 w) (uuid2 w) r ar = Inr (tn, rn, an, qn, cid)"
          using Inr by (cases t) auto
        from a e show ?thesis unfolding ask_first_turn_Inr [OF True c f]
          by (auto simp del: dict_display.simps split: sum.splits dest: dict_display_Inl)
      qed
    next
      case False
      show ?thesis
      proof (cases "next_turn self message0 (uuid1 w) ar")
        case (Inl e')
        with a c False show ?thesis by (simp add: ask_next_turn_Inl)
      next
        case (Inr t)
        obtain an qn m1
          where f: "next_turn self message0 (uuid1 w) ar = Inr (an, qn, m1)"
          using Inr by (cases t) auto
        from a e show ?thesis unfolding ask_next_turn_Inr [OF False c f]
          by (auto split: sum.splits dest: mapping_setitem_Inl)
      qed
    qed
  qed
qed

text \<open>
  The claim as stated fails when the stream is too short: line 381 raises
  \<^verbatim>\<open>ValueError\<close>, and that is what the caller of \<^verbatim>\<open>ask\<close> sees.
\<close>

theorem ask_failure_counterexample:
  "payload_frames ''data: {}'' = Inl ValueError \<and>
   ask new_session ''hello'' True \<lparr>uuid1 = ''0b5e6c1a-7d2f-4c3b-8e9a-1f2a3b4c5d6e'', uuid2 = ''9c8d7e6f-5a4b-4c3d-a2b1-0f9e8d7c6b5a'',
      chat_completion = Inl ValueError\<rparr> = (new_session, Inl ValueError) \<and>
   ValueError \<noteq> Error ''RemoteCallError''"
  by (simp add: ask_def payload_frames_def slice_m3_m1_def unpack2_def new_session_def)

theorem ask_failure_keeps_state_witness:
  "ask new_session ''hello'' True \<lparr>uuid1 = ''0b5e6c1a-7d2f-4c3b-8e9a-1f2a3b4c5d6e'', uuid2 = ''9c8d7e6f-5a4b-4c3d-a2b1-0f9e8d7c6b5a'',
      chat_completion = Inl (Error ''ConnectionError'')\<rparr>
     = (new_session, Inl (Error ''ConnectionError'')) \<and>
   snd (ask new_session ''hello'' True \<lparr>uuid1 = ''0b5e6c1a-7d2f-4c3b-8e9a-1f2a3b4c5d6e'', uuid2 = ''9c8d7e6f-5a4b-4c3d-a2b1-0f9e8d7c6b5a'',
      chat_completion = Inr (payload ''msg-1'' ''ack'' (JStr ''conv-1''),
                             JObj [(''message'', JObj [(''id'', JStr ''msg-2'')])])\<rparr>)
     = Inl KeyError \<and>
   fst (ask new_session ''hello'' True \<lparr>uuid1 = ''0b5e6c1a-7d2f-4c3b-8e9a-1f2a3b4c5d6e'', uuid2 = ''9c8d7e6f-5a4b-4c3d-a2b1-0f9e8d7c6b5a'',
      chat_completion = Inr (payload ''msg-1'' ''ack'' (JStr ''conv-1''),
                             JObj [(''message'', JObj [(''id'', JStr ''msg-2'')])])\<rparr>)
     = new_session"
proof -
  let ?w = "\<lparr>uuid1 = ''0b5e6c1a-7d2f-4c3b-8e9a-1f2a3b4c5d6e'', uuid2 = ''9c8d7e6f-5a4b-4c3d-a2b1-0f9e8d7c6b5a'',
      chat_completion = Inr (payload ''msg-1'' ''ack'' (JStr ''conv-1''),
                             JObj [(''message'', JObj [(''id'', JStr ''msg-2'')])])\<rparr>"
  have h: "snd (ask new_session ''hello'' True ?w) = Inl KeyError" by (simp add: ev)
  then have h': "ask new_session ''hello'' True ?w = (fst (ask new_session ''hello'' True ?w), Inl KeyError)"
    by (metis prod.collapse)
  from ask_failure_keeps_state [of "\<lparr>uuid1 = ''0b5e6c1a-7d2f-4c3b-8e9a-1f2a3b4c5d6e'', uuid2 = ''9c8d7e6f-5a4b-4c3d-a2b1-0f9e8d7c6b5a'',
      chat_completion = Inl (Error ''ConnectionError'')\<rparr>" "Error ''ConnectionError''"
      new_session "''hello''" True new_session]
    ask_failure_keeps_state [of ?w KeyError new_session "''hello''" True "fst (ask new_session ''hello'' True ?w)"]
    h h'
  show ?thesis by simp
qed

text \<open>
  Claim C1, as amended. Start from a session with an empty mapping and let calls of
  \<^verbatim>\<open>ask\<close> return one after the other. If the ids of every call are distinct (the
  generated ids and the ids of the payloads differ from each other and from the keys
  already in the mapping) and the \<^verbatim>\<open>conversation_id\<close> of the first answer payload is not
  \<^verbatim>\<open>None\<close>, then after the first \<^verbatim>\<open>n \<ge> 1\<close> calls the mapping has \<^verbatim>\<open>2n + 2\<close> nodes
  (four after the first call, two more with every later call) and \<^verbatim>\<open>chat_id\<close> is the
  \<^verbatim>\<open>conversation_id\<close> of the first answer payload.
\<close>

theorem ask_store_size:
  assumes "mapping self = []"
    and "ask_all self ((message0, keep, w) # calls) = Some self'"
    and "distinct_run self ((message0, keep, w) # calls)"
    and "chat_completion w = Inr (root_resp, ans_resp)"
    and "getitem ans_resp ''conversation_id'' \<noteq> Inr JNull"
    and "0 < n" and "n \<le> length ((message0, keep, w) # calls)"
  shows "\<exists>s. ask_all self (take n ((message0, keep, w) # calls)) = Some s \<and>
             length (mapping s) = 2 * n + 2 \<and>
             getitem ans_resp ''conversation_id'' = Inr (chat_id s) \<and> chat_id s \<noteq> JNull"
proof -
  from assms(6) obtain j where n: "n = Suc j" by (cases n) auto
  have t: "take n ((message0, keep, w) # calls) = (message0, keep, w) # take j calls"
    unfolding n by simp
  from ask_all_take [OF assms(2), of n] obtain s
    where s: "ask_all self ((message0, keep, w) # take j calls) = Some s" unfolding t by blast
  from distinct_run_take [OF assms(3), of n]
  have d: "distinct_run self ((message0, keep, w) # take j calls)" unfolding t .
  have "length (take j calls) = j" using assms(7) unfolding n by simp
  with ask_store_size_run [OF assms(1) s d assms(4,5)] s show ?thesis unfolding t n by simp
qed

text \<open>
  The claim as stated fails when the two payloads of the first turn carry the same message
  id: the mapping then has three nodes. It also fails when the answer payload has a null
  \<^verbatim>\<open>conversation_id\<close>: \<^verbatim>\<open>chat_id\<close> is still \<^verbatim>\<open>None\<close> after the call.
\<close>

theorem ask_store_size_counterexample:
  "snd (ask new_session ''hello'' True
     \<lparr>uuid1 = ''0b5e6c1a-7d2f-4c3b-8e9a-1f2a3b4c5d6e'', uuid2 = ''9c8d7e6f-5a4b-4c3d-a2b1-0f9e8d7c6b5a'',
      chat_completion = Inr (payload ''msg-1'' ''h'' (JStr ''conv-1''),
                             payload ''msg-1'' ''hi'' (JStr ''conv-1''))\<rparr>) = Inr (JStr ''hi'') \<and>
   length (mapping (fst (ask new_session ''hello'' True
     \<lparr>uuid1 = ''0b5e6c1a-7d2f-4c3b-8e9a-1f2a3b4c5d6e'', uuid2 = ''9c8d7e6f-5a4b-4c3d-a2b1-0f9e8d7c6b5a'',
      chat_completion = Inr (payload ''msg-1'' ''h'' (JStr ''conv-1''),
                             payload ''msg-1'' ''hi'' (JStr ''conv-1''))\<rparr>))) = 3 \<and>
   snd (ask new_session ''hello'' True
     \<lparr>uuid1 = ''0b5e6c1a-7d2f-4c3b-8e9a-1f2a3b4c5d6e'', uuid2 = ''9c8d7e6f-5a4b-4c3d-a2b1-0f9e8d7c6b5a'',
      chat_completion = Inr (payload ''msg-1'' ''ack'' JNull, payload ''msg-2'' ''hi'' JNull)\<rparr>)
     = Inr (JStr ''hi'') \<and>
   chat_id (fst (ask new_session ''hello'' True
     \<lparr>uuid1 = ''0b5e6c1a-7d2f-4c3b-8e9a-1f2a3b4c5d6e'', uuid2 = ''9c8d7e6f-5a4b-4c3d-a2b1-0f9e8d7c6b5a'',
      chat_completion = Inr (payload ''msg-1'' ''ack'' JNull, payload ''msg-2'' ''hi'' JNull)\<rparr>))
     = JNull"
  by (simp add: ev)

theorem ask_store_size_witness:
  "(\<exists>s. ask_all new_session [(''hello'', True, first_call)] = Some s \<and>
        length (mapping s) = 4 \<and> chat_id s = JStr ''conv-1'') \<and>
   (\<exists>s. ask_all new_session [(''hello'', True, first_call), (''more'', True, second_call)] = Some s \<and>
        length (mapping s) = 6 \<and> chat_id s = JStr ''conv-1'')"
proof -
  have h1: "mapping new_session = []" by (simp add: new_session_def)
  have h2: "ask_all new_session [(''hello'', True, first_call), (''more'', True, second_call)]
     = Some (fst (ask (fst (ask new_session ''hello'' True first_call)) ''more'' True second_call))"
    by (simp add: ev)
  have h3: "distinct_run new_session [(''hello'', True, first_call), (''more'', True, second_call)]"
    by (simp add: ev)
  have h4: "chat_completion first_call = Inr (payload ''msg-1'' ''ack'' (JStr ''conv-1''),
                             payload ''msg-2'' ''hi'' (JStr ''conv-1''))"
    by (simp add: first_call_def)
  have h5: "getitem (payload ''msg-2'' ''hi'' (JStr ''conv-1'')) ''conversation_id'' \<noteq> Inr JNull"
    by (simp add: payload_def)
  from ask_store_size [OF h1 h2 h3 h4 h5, of 1] ask_store_size [OF h1 h2 h3 h4 h5, of 2]
  show ?thesis by (auto simp: payload_def)
qed

end
